theory Spec2Isabelle
  imports Complex_Main "HOL-Library.AList" "HOL-Library.DAList"
begin

section \<open>The results document\<close>

text \<open>
  The tool keeps its results in nested Python dictionaries that are written to and read
  from a JSON file.  A Python \<^verbatim>\<open>dict\<close> has distinct keys and keeps them in insertion
  order; \<^verbatim>\<open>d[k] = x\<close> replaces the value of an existing key where it stands and
  appends a new key at the end.  This is the type \<^typ>\<open>('k, 'v) alist\<close> of association
  lists with distinct keys, with \<^const>\<open>DAList.update\<close> for item assignment and
  \<^const>\<open>DAList.lookup\<close> for item access.
\<close>

type_synonym ('k, 'v) dict = "('k, 'v) alist"

text \<open>\<^verbatim>\<open>list(d.keys())\<close>: the keys in insertion order.\<close>

definition keys :: "('k, 'v) dict \<Rightarrow> 'k list" where
  "keys d = map fst (DAList.impl_of d)"

text \<open>\<^verbatim>\<open>k in d\<close>.\<close>

definition has_key :: "('k, 'v) dict \<Rightarrow> 'k \<Rightarrow> bool" where
  "has_key d k = (DAList.lookup d k \<noteq> None)"

text \<open>
  The entry \<^verbatim>\<open>results["versions"][version]\<close>.  The counters are Python integers.
\<close>

record version_stats =
  tested_count :: int
  correct_count :: int
  timestamp :: string

text \<open>
  The entry \<^verbatim>\<open>results["titles"][title][version]\<close>.  The parser's result is an opaque
  value of type \<^typ>\<open>'p\<close>; the keys \<^verbatim>\<open>"notes"\<close> and \<^verbatim>\<open>"timestamp"\<close> of this
  dictionary are the fields \<open>verdict_notes\<close> and \<open>verdict_timestamp\<close>.
\<close>

record 'p title_verdict =
  is_correct :: bool
  parsed_result :: 'p
  verdict_notes :: string
  verdict_timestamp :: string

record 'p document =
  versions :: "(string, version_stats) dict"
  titles :: "(string, (string, 'p title_verdict) dict) dict"

text \<open>
  The attributes of \<^verbatim>\<open>TorrentTester\<close> that its methods read: the loaded dataset, the
  version under test and the results document.
\<close>

record 'p tester =
  torrent_titles :: "string list"
  library_version :: string
  results :: "'p document"

text \<open>\<^verbatim>\<open>_create_new_results\<close>\<close>

definition create_new_results :: "'p document" where
  "create_new_results = \<lparr>versions = DAList.empty, titles = DAList.empty\<rparr>"

section \<open>Recording a verdict\<close>

text \<open>
  \<^verbatim>\<open>record_result\<close>, lines 124 to 147.  The two readings of the clock
  (\<^verbatim>\<open>datetime.now().isoformat()\<close>) are the parameters \<open>now_version\<close> (line 129, used
  only when the version entry is created) and \<open>now_verdict\<close> (line 141).  The
  statements \<^verbatim>\<open>d[k1][k2] = x\<close> and \<^verbatim>\<open>d[k]["f"] += 1\<close> change the entry under a key
  that the lines before them have made sure is there: \<^const>\<open>DAList.map_entry\<close>.  The
  closing call of \<^verbatim>\<open>save_results\<close> writes the file and leaves the document as it is;
  the session below records it as an event.
\<close>

definition record_result ::
  "'p tester \<Rightarrow> string \<Rightarrow> 'p \<Rightarrow> bool \<Rightarrow> string \<Rightarrow> string \<Rightarrow> string \<Rightarrow> 'p tester" where
  "record_result T title parsed ok nts now_version now_verdict =
    (let v = library_version T;
         d = results T;
         vs1 = (if \<not> has_key (versions d) v
                then DAList.update v
                       \<lparr>tested_count = 0, correct_count = 0, timestamp = now_version\<rparr>
                       (versions d)
                else versions d);
         ts1 = (if \<not> has_key (titles d) title
                then DAList.update title DAList.empty (titles d)
                else titles d);
         ts2 = DAList.map_entry title
                 (DAList.update v
                    \<lparr>is_correct = ok, parsed_result = parsed, verdict_notes = nts,
                     verdict_timestamp = now_verdict\<rparr>)
                 ts1;
         vs2 = DAList.map_entry v (\<lambda>s. s\<lparr>tested_count := tested_count s + 1\<rparr>) vs1;
         vs3 = (if ok
                then DAList.map_entry v (\<lambda>s. s\<lparr>correct_count := correct_count s + 1\<rparr>) vs2
                else vs2)
     in T\<lparr>results := \<lparr>versions = vs3, titles = ts2\<rparr>\<rparr>)"

text \<open>\<^verbatim>\<open>get_previously_tested_titles\<close>\<close>

definition get_previously_tested_titles :: "'p tester \<Rightarrow> string list" where
  "get_previously_tested_titles T = keys (titles (results T))"

text \<open>
  The counters of a version as the statistics read them (lines 162 to 168): zero when
  the version has no entry.
\<close>

definition tested_of :: "'p document \<Rightarrow> string \<Rightarrow> int" where
  "tested_of d v = (case DAList.lookup (versions d) v of None \<Rightarrow> 0 | Some s \<Rightarrow> tested_count s)"

definition correct_of :: "'p document \<Rightarrow> string \<Rightarrow> int" where
  "correct_of d v = (case DAList.lookup (versions d) v of None \<Rightarrow> 0 | Some s \<Rightarrow> correct_count s)"

section \<open>Choosing the next title\<close>

text \<open>
  The test of lines 93 and 94, \<^verbatim>\<open>title not in titles or version not in titles[title]\<close>,
  and its negation: the document has a verdict for the title with the version.
\<close>

definition has_verdict :: "'p document \<Rightarrow> string \<Rightarrow> string \<Rightarrow> bool" where
  "has_verdict d title v =
     (case DAList.lookup (titles d) title of None \<Rightarrow> False | Some e \<Rightarrow> has_key e v)"

text \<open>\<^verbatim>\<open>titles[title][version]\<close> where it exists.\<close>

definition verdict_at :: "'p document \<Rightarrow> string \<Rightarrow> string \<Rightarrow> 'p title_verdict option" where
  "verdict_at d title v =
     (case DAList.lookup (titles d) title of None \<Rightarrow> None | Some e \<Rightarrow> DAList.lookup e v)"

definition untested_titles :: "'p tester \<Rightarrow> string list" where
  "untested_titles T =
     filter (\<lambda>title. \<not> has_key (titles (results T)) title
                     \<or> \<not> has_verdict (results T) title (library_version T))
       (torrent_titles T)"

text \<open>
  \<^verbatim>\<open>random.choice(seq)\<close> on a non-empty sequence is \<^verbatim>\<open>seq[randbelow(len(seq))]\<close>.  The
  random source is the parameter \<open>r\<close>, any natural number; \<open>r mod length seq\<close> runs
  through every index below the length.
\<close>

definition choice :: "nat \<Rightarrow> 'a list \<Rightarrow> 'a" where
  "choice r seq = seq ! (r mod length seq)"

text \<open>\<^verbatim>\<open>get_random_untested_title\<close>\<close>

definition get_random_untested_title :: "nat \<Rightarrow> 'p tester \<Rightarrow> string option" where
  "get_random_untested_title r T =
     (let untested = untested_titles T
      in if untested = [] then None else Some (choice r untested))"

section \<open>Statistics\<close>

datatype py_error =
  KeyboardInterrupt | EOFError | ZeroDivisionError | OverflowError | OSError
  | UnicodeDecodeError

text \<open>
  A Python float that arithmetic on finite floats can give: a finite number or an
  infinity.  Finite floats are modelled by the exact real number, without the rounding
  to 53 bits.
\<close>

datatype py_float = Finite real | PosInf | NegInf

text \<open>
  The least magnitude that rounds out of the range of a float: half an ulp above the
  largest float \<open>2^1024 - 2^971\<close>.
\<close>

definition overflow_bound :: real where
  "overflow_bound = 2 ^ 1024 - 2 ^ 970"

text \<open>
  Python's \<^verbatim>\<open>a / b\<close> on integers: \<^verbatim>\<open>ZeroDivisionError\<close> on a zero divisor,
  \<^verbatim>\<open>OverflowError\<close> when the quotient is too large for a float, else the quotient.
\<close>

definition truediv :: "int \<Rightarrow> int \<Rightarrow> py_error + real" where
  "truediv a b =
     (if b = 0 then Inl ZeroDivisionError
      else if overflow_bound \<le> \<bar>real_of_int a / real_of_int b\<bar> then Inl OverflowError
      else Inr (real_of_int a / real_of_int b))"

text \<open>
  The product of two finite floats does not raise: out of range it is an infinity.
\<close>

definition float_mul :: "real \<Rightarrow> real \<Rightarrow> py_float" where
  "float_mul x y =
     (if overflow_bound \<le> x * y then PosInf
      else if x * y \<le> - overflow_bound then NegInf
      else Finite (x * y))"

text \<open>The numbers that \<^verbatim>\<open>print_statistics\<close> prints, one field for each line.\<close>

record stats =
  shown_version :: string
  total_titles :: nat
  total_tested_titles :: nat
  tested_this_version :: int
  accuracy :: "py_float option"
  untested_count :: nat

text \<open>
  \<^verbatim>\<open>print_statistics\<close>: \<open>Inr None\<close> when it returns at once without printing (no
  dataset), \<open>Inr (Some s)\<close> when it prints the report \<open>s\<close>, \<open>Inl e\<close> when the division
  of line 179 raises; the four lines printed before that line are then all it prints.
\<close>

definition print_statistics :: "'p tester \<Rightarrow> py_error + stats option" where
  "print_statistics T =
     (if torrent_titles T = [] then Inr None
      else
        let total = length (torrent_titles T);
            (tested, correct) =
               (case DAList.lookup (versions (results T)) (library_version T) of
                  Some version_stats \<Rightarrow> (tested_count version_stats, correct_count version_stats)
                | None \<Rightarrow> (0, 0));
            total_tested = length (keys (titles (results T)))
        in case (if tested > 0
                 then (case truediv correct tested of
                         Inl e \<Rightarrow> Inl e | Inr q \<Rightarrow> Inr (Some (float_mul q 100)))
                 else Inr None) of
             Inl e \<Rightarrow> Inl e
           | Inr acc \<Rightarrow>
               Inr (Some \<lparr>shown_version = library_version T,
                          total_titles = total,
                          total_tested_titles = total_tested,
                          tested_this_version = tested,
                          accuracy = acc,
                          untested_count = length (untested_titles T)\<rparr>))"

section \<open>Loading the results file\<close>

text \<open>
  What the file system holds under a path, as far as \<^verbatim>\<open>_load_results\<close> can tell: whether
  \<^verbatim>\<open>open\<close> succeeds (\<open>readable\<close>), and what \<^verbatim>\<open>json.load\<close> does with the bytes:
  they are not UTF-8 (\<^verbatim>\<open>UnicodeDecodeError\<close>), they are text that is not JSON
  (\<^verbatim>\<open>json.JSONDecodeError\<close>), or they are the JSON of a document.
\<close>

datatype 'p file_content = Undecodable | Malformed | Stored "'p document"

record 'p stored_file =
  readable :: bool
  content :: "'p file_content"

text \<open>\<open>can_rename\<close>: whether \<^verbatim>\<open>os.rename\<close> succeeds (the directory may be read-only).\<close>

record 'p file_system =
  files :: "string \<rightharpoonup> 'p stored_file"
  can_rename :: bool

text \<open>
  \<^verbatim>\<open>_backup_results\<close>; \<open>stamp\<close> is \<^verbatim>\<open>datetime.now().strftime('%Y%m%d%H%M%S')\<close>.  A failed
  rename is caught and reported, and the file stays.
\<close>

definition backup_results :: "'p file_system \<Rightarrow> string \<Rightarrow> string \<Rightarrow> 'p file_system" where
  "backup_results fs results_path stamp =
     (case files fs results_path of
        None \<Rightarrow> fs
      | Some f \<Rightarrow>
          let backup_path = results_path @ ''.bak.'' @ stamp
          in if can_rename fs
             then fs\<lparr>files := ((files fs)(results_path := None))(backup_path \<mapsto> f)\<rparr>
             else fs)"

text \<open>
  \<^verbatim>\<open>_load_results\<close>.  Only \<^verbatim>\<open>json.JSONDecodeError\<close> is caught; what \<^verbatim>\<open>open\<close> and the
  decoding raise leaves the function.
\<close>

definition load_results ::
  "'p file_system \<Rightarrow> string \<Rightarrow> string \<Rightarrow> py_error + ('p document \<times> 'p file_system)" where
  "load_results fs results_path stamp =
     (case files fs results_path of
        None \<Rightarrow> Inr (create_new_results, fs)
      | Some f \<Rightarrow>
          if \<not> readable f then Inl OSError
          else (case content f of
                  Undecodable \<Rightarrow> Inl UnicodeDecodeError
                | Malformed \<Rightarrow> Inr (create_new_results, backup_results fs results_path stamp)
                | Stored d \<Rightarrow> Inr (d, fs)))"

section \<open>Replaying calls\<close>

text \<open>
  The only operation that changes a document is \<open>record_result\<close>.  A document that the
  program can build from the empty one is the result of a list of such calls, each with
  the version of the run that made it.
\<close>

record 'p call =
  call_version :: string
  call_title :: string
  call_parsed :: 'p
  call_ok :: bool
  call_notes :: string
  call_now_version :: string
  call_now_verdict :: string

definition apply_call :: "'p document \<Rightarrow> 'p call \<Rightarrow> 'p document" where
  "apply_call d c =
     results (record_result
       \<lparr>torrent_titles = [], library_version = call_version c, results = d\<rparr>
       (call_title c) (call_parsed c) (call_ok c) (call_notes c)
       (call_now_version c) (call_now_verdict c))"

fun replay :: "'p document \<Rightarrow> 'p call list \<Rightarrow> 'p document" where
  "replay d [] = d"
| "replay d (c # cs) = replay (apply_call d c) cs"

text \<open>The invariant of the counters of one version entry.\<close>

definition counts_ok :: "version_stats \<Rightarrow> bool" where
  "counts_ok s = (0 \<le> correct_count s \<and> correct_count s \<le> tested_count s)"

section \<open>The interactive session\<close>

text \<open>
  What a call of \<^verbatim>\<open>input()\<close> meets: a line typed by the operator, or the operator's
  interrupt.  A session is run against the list of these; when the list is used up the
  input has ended and \<^verbatim>\<open>input()\<close> raises \<^verbatim>\<open>EOFError\<close>.
\<close>

datatype input_ev = Line string | Interrupt

fun input_line :: "input_ev list \<Rightarrow> (py_error + string) \<times> input_ev list" where
  "input_line [] = (Inl EOFError, [])"
| "input_line (Interrupt # rest) = (Inl KeyboardInterrupt, rest)"
| "input_line (Line l # rest) = (Inr l, rest)"

text \<open>
  \<^verbatim>\<open>str.lower\<close> on the ASCII letters; the answers are compared with ASCII words only.
\<close>

definition lower_char :: "char \<Rightarrow> char" where
  "lower_char c =
     (case map_of (zip ''ABCDEFGHIJKLMNOPQRSTUVWXYZ'' ''abcdefghijklmnopqrstuvwxyz'') c of
        Some l \<Rightarrow> l
      | None \<Rightarrow> c)"

definition lower :: "string \<Rightarrow> string" where
  "lower s = map lower_char s"

text \<open>The prompt loop of lines 284 to 288: ask until the answer is one of the five.\<close>

fun ask_feedback :: "input_ev list \<Rightarrow> (py_error + string) \<times> input_ev list" where
  "ask_feedback [] = (Inl EOFError, [])"
| "ask_feedback (Interrupt # rest) = (Inl KeyboardInterrupt, rest)"
| "ask_feedback (Line l # rest) =
     (let response = lower l
      in if response \<in> set [''y'', ''n'', ''s'', ''q'', []]
         then (Inr response, rest)
         else ask_feedback rest)"

text \<open>Lines 301 to 304: notes are asked for only after a verdict "incorrect".\<close>

definition ask_notes :: "bool \<Rightarrow> input_ev list \<Rightarrow> (py_error + string) \<times> input_ev list" where
  "ask_notes ok ins = (if \<not> ok then input_line ins else (Inr [], ins))"

text \<open>
  How the session ends: the loop is left because nothing is left to test (\<open>Done\<close>),
  because the operator quits or declines to continue (\<open>Quit\<close>), because of an
  interrupt that the \<^verbatim>\<open>except KeyboardInterrupt\<close> clause catches (\<open>Interrupted\<close>), or
  with an exception that leaves the function (\<open>Raised\<close>).
\<close>

datatype exit = Done | Quit | Interrupted | Raised py_error

text \<open>
  What the session does to the outside, in order: a call of \<^verbatim>\<open>save_results\<close> with the
  document it writes, and a call of \<^verbatim>\<open>print_statistics\<close> with what it prints.
\<close>

datatype 'p event = Saved "'p document" | Report "stats option"

text \<open>
  The surroundings of a session: the parser under test, the random draw made in round
  \<open>n\<close> (a round draws at most once, at its start), the two clock readings of
  \<open>record_result\<close> in round \<open>n\<close>, and the permutation that \<^verbatim>\<open>random.shuffle\<close> applies.
\<close>

record 'p env =
  parse_title :: "string \<Rightarrow> 'p"
  rnd :: "nat \<Rightarrow> nat"
  now_version :: "nat \<Rightarrow> string"
  now_verdict :: "nat \<Rightarrow> string"
  shuffle :: "string list \<Rightarrow> string list"

text \<open>
  Lines 259 to 269: the title of the round, or \<open>None\<close> when the loop is left with
  \<^verbatim>\<open>break\<close>.  \<^verbatim>\<open>if not title\<close> holds for \<^verbatim>\<open>None\<close> and for the empty string.
\<close>

definition select_title ::
  "'p env \<Rightarrow> bool \<Rightarrow> string list \<Rightarrow> nat \<Rightarrow> 'p tester \<Rightarrow> string option" where
  "select_title E retest_mode titles_to_test count T =
     (if retest_mode \<and> count \<ge> length titles_to_test then None
      else if retest_mode then Some (titles_to_test ! count)
      else (case get_random_untested_title (rnd E count) T of
              None \<Rightarrow> None
            | Some title \<Rightarrow> if title = [] then None else Some title))"

text \<open>Lines 311 to 313: the report after every fifth round.\<close>

definition periodic_statistics ::
  "nat \<Rightarrow> 'p tester \<Rightarrow> 'p event list \<Rightarrow> py_error + 'p event list" where
  "periodic_statistics count T tr =
     (if count mod 5 = 0
      then (case print_statistics T of Inl e \<Rightarrow> Inl e | Inr r \<Rightarrow> Inr (tr @ [Report r]))
      else Inr tr)"

text \<open>
  The \<^verbatim>\<open>while True\<close> loop of lines 258 to 320, with the state it carries: the round
  counter, the tester, the events so far and the input not yet read.
\<close>

function testing_loop ::
  "'p env \<Rightarrow> bool \<Rightarrow> string list \<Rightarrow> nat \<Rightarrow> 'p tester \<Rightarrow> 'p event list \<Rightarrow> input_ev list
     \<Rightarrow> exit \<times> 'p tester \<times> 'p event list" where
  "testing_loop E retest_mode titles_to_test count T tr ins =
     (case select_title E retest_mode titles_to_test count T of
        None \<Rightarrow> (Done, T, tr)
      | Some title \<Rightarrow>
         (let parsed = parse_title E title
          in (case ask_feedback ins of
               (Inl e, ins1) \<Rightarrow> (Raised e, T, tr)
             | (Inr response, ins1) \<Rightarrow>
                (if response = ''q'' then (Quit, T, tr)
                 else if response = ''s''
                 then testing_loop E retest_mode titles_to_test (count + 1) T tr ins1
                 else
                  (let ok = (response = ''y'' \<or> response = [])
                   in (case ask_notes ok ins1 of
                        (Inl e, ins2) \<Rightarrow> (Raised e, T, tr)
                      | (Inr nts, ins2) \<Rightarrow>
                         (let T1 = record_result T title parsed ok nts
                                     (now_version E count) (now_verdict E count);
                              tr1 = tr @ [Saved (results T1)]
                          in (case periodic_statistics (count + 1) T1 tr1 of
                               Inl e \<Rightarrow> (Raised e, T1, tr1)
                             | Inr tr2 \<Rightarrow>
                                (if (count + 1) mod 10 = 0
                                 then (case input_line ins2 of
                                         (Inl e, ins3) \<Rightarrow> (Raised e, T1, tr2)
                                       | (Inr l, ins3) \<Rightarrow>
                                          (if lower l \<notin> set [[], ''y'']
                                           then (Quit, T1, tr2)
                                           else testing_loop E retest_mode titles_to_test
                                                  (count + 1) T1 tr2 ins3))
                                 else testing_loop E retest_mode titles_to_test
                                        (count + 1) T1 tr2 ins2)))))))))"
  by pat_completeness auto

text \<open>Every round reads at least one line, so the loop ends when the input does.\<close>

termination
proof -
  have feedback: "length rest < length ins" if "(Inr r, rest) = ask_feedback ins"
    for r rest ins
    using that by (induction ins rule: ask_feedback.induct) (auto simp: Let_def split: if_splits)
  have line: "length rest < length ins" if "(Inr r, rest) = input_line ins" for r rest ins
    using that by (induction ins rule: input_line.induct) auto
  have asked: "length rest \<le> length ins" if "(Inr r, rest) = ask_notes ok ins"
    for r rest ok ins
    using that line [of r rest ins] by (auto simp: ask_notes_def split: if_splits)
  show ?thesis
    by (relation "measure (\<lambda>(E, retest_mode, titles_to_test, count, T, tr, ins). length ins)")
       (auto dest!: feedback asked line)
qed

declare testing_loop.simps [simp del]

text \<open>
  \<^verbatim>\<open>interactive_testing\<close>: the \<^verbatim>\<open>try\<close> block, the \<^verbatim>\<open>except KeyboardInterrupt\<close> clause
  and the \<^verbatim>\<open>finally\<close> clause, which runs however the block is left.
\<close>

definition interactive_testing ::
  "'p env \<Rightarrow> 'p tester \<Rightarrow> bool \<Rightarrow> input_ev list \<Rightarrow> exit \<times> 'p tester \<times> 'p event list" where
  "interactive_testing E T retest_mode ins =
     (let (ex, T1, tr) =
            (if retest_mode
             then (let titles_to_test = get_previously_tested_titles T
                   in if titles_to_test = [] then (Done, T, [])
                      else testing_loop E True (shuffle E titles_to_test) 0 T [] ins)
             else testing_loop E False [] 0 T [] ins);
          tr1 = tr @ [Saved (results T1)]
      in (case print_statistics T1 of
            Inl e \<Rightarrow> (Raised e, T1, tr1)
          | Inr r \<Rightarrow>
              (if ex = Raised KeyboardInterrupt then Interrupted else ex, T1,
               tr1 @ [Report r])))"

section \<open>Concrete inputs\<close>

text \<open>A tester on a dataset of two titles with an empty document, and plain surroundings.\<close>

definition fresh_tester :: "unit tester" where
  "fresh_tester =
     \<lparr>torrent_titles = [''Show.S01E02.1080p'', ''Movie.2020.720p''],
      library_version = ''dev'', results = create_new_results\<rparr>"

definition plain_env :: "unit env" where
  "plain_env =
     \<lparr>parse_title = (\<lambda>title. ()), rnd = (\<lambda>n. n),
      now_version = (\<lambda>n. ''2025-01-01T00:00:00''), now_verdict = (\<lambda>n. ''2025-01-01T00:00:01''),
      shuffle = rev\<rparr>"

section \<open>Facts about dictionaries\<close>

lemma lookup_map_entry:
  "DAList.lookup (DAList.map_entry k f d) k' =
     (if k' = k then map_option f (DAList.lookup d k) else DAList.lookup d k')"
  by transfer (auto simp: map_of_map_entry split: option.splits)

lemma keys_map_entry: "keys (DAList.map_entry k f d) = keys d"
  unfolding keys_def
proof transfer
  fix k :: 'a and f :: "'b \<Rightarrow> 'b" and xs :: "('a \<times> 'b) list"
  show "map fst (AList.map_entry k f xs) = map fst xs"
    by (induction xs) auto
qed

lemma keys_update:
  "keys (DAList.update k x d) = (if has_key d k then keys d else keys d @ [k])"
  unfolding keys_def has_key_def
proof transfer
  fix k :: 'a and x :: 'b and xs :: "('a \<times> 'b) list"
  show "map fst (AList.update k x xs) =
          (if map_of xs k \<noteq> None then map fst xs else map fst xs @ [k])"
    by (induction xs) auto
qed

lemma set_keys: "set (keys d) = {k. has_key d k}"
  unfolding keys_def has_key_def
  by transfer (auto simp: map_of_eq_None_iff image_iff)

lemma distinct_keys: "distinct (keys d)"
  by (simp add: keys_def)

lemma has_key_update: "has_key (DAList.update k x d) k' = (k' = k \<or> has_key d k')"
  by (auto simp: has_key_def DAList.lookup_update)

lemma has_key_map_entry: "has_key (DAList.map_entry k f d) k' = has_key d k'"
  by (auto simp: has_key_def lookup_map_entry)

lemma has_key_empty: "\<not> has_key DAList.empty k"
  by (simp add: has_key_def)

section \<open>What \<open>record_result\<close> leaves behind\<close>

lemma versions_record_result:
  "DAList.lookup (versions (results (record_result T t p ok n nv nt))) v' =
     (if v' = library_version T
      then Some (case DAList.lookup (versions (results T)) v' of
                   None \<Rightarrow> \<lparr>tested_count = 1, correct_count = (if ok then 1 else 0),
                             timestamp = nv\<rparr>
                 | Some s \<Rightarrow> s\<lparr>tested_count := tested_count s + 1,
                               correct_count := correct_count s + (if ok then 1 else 0)\<rparr>)
      else DAList.lookup (versions (results T)) v')"
  by (auto simp: record_result_def Let_def has_key_def lookup_map_entry DAList.lookup_update
           split: option.splits)

lemma titles_record_result:
  "DAList.lookup (titles (results (record_result T t p ok n nv nt))) t' =
     (if t' = t
      then Some (DAList.update (library_version T)
                   \<lparr>is_correct = ok, parsed_result = p, verdict_notes = n, verdict_timestamp = nt\<rparr>
                   (case DAList.lookup (titles (results T)) t of
                      None \<Rightarrow> DAList.empty | Some e \<Rightarrow> e))
      else DAList.lookup (titles (results T)) t')"
  by (auto simp: record_result_def Let_def has_key_def lookup_map_entry DAList.lookup_update
           split: option.splits)

lemma keys_titles_record_result:
  "keys (titles (results (record_result T t p ok n nv nt))) =
     (if has_key (titles (results T)) t then keys (titles (results T))
      else keys (titles (results T)) @ [t])"
  by (simp add: record_result_def Let_def keys_map_entry keys_update)

lemma record_result_frame [simp]:
  "library_version (record_result T t p ok n nv nt) = library_version T"
  "torrent_titles (record_result T t p ok n nv nt) = torrent_titles T"
  by (simp_all add: record_result_def Let_def)

lemma tested_of_record_result:
  "tested_of (results (record_result T t p ok n nv nt)) v =
     (if v = library_version T then tested_of (results T) v + 1 else tested_of (results T) v)"
  by (simp add: tested_of_def versions_record_result split: option.splits)

lemma correct_of_record_result:
  "correct_of (results (record_result T t p ok n nv nt)) v =
     (if v = library_version T \<and> ok then correct_of (results T) v + 1
      else correct_of (results T) v)"
  by (simp add: correct_of_def versions_record_result split: option.splits)

lemma count_distinct_member:
  "distinct xs \<Longrightarrow> k \<in> set xs \<Longrightarrow> length (filter (\<lambda>x. x = k) xs) = 1"
  by (induction xs) (auto simp: filter_empty_conv)

lemma has_verdict_verdict_at: "has_verdict d t v = (verdict_at d t v \<noteq> None)"
  by (simp add: has_verdict_def verdict_at_def has_key_def split: option.splits)

lemma apply_call_versions:
  "DAList.lookup (versions (apply_call d c)) v =
     (if v = call_version c
      then Some (case DAList.lookup (versions d) v of
                   None \<Rightarrow> \<lparr>tested_count = 1, correct_count = (if call_ok c then 1 else 0),
                             timestamp = call_now_version c\<rparr>
                 | Some s \<Rightarrow> s\<lparr>tested_count := tested_count s + 1,
                               correct_count := correct_count s + (if call_ok c then 1 else 0)\<rparr>)
      else DAList.lookup (versions d) v)"
  by (simp add: apply_call_def versions_record_result)

lemma apply_call_counts_ok:
  assumes "\<And>v s. DAList.lookup (versions d) v = Some s \<Longrightarrow> counts_ok s"
      and "DAList.lookup (versions (apply_call d c)) v = Some s"
  shows "counts_ok s"
proof (cases "v = call_version c")
  case False
  then show ?thesis
    using assms by (simp add: apply_call_versions)
next
  case True
  show ?thesis
  proof (cases "DAList.lookup (versions d) v")
    case None
    then show ?thesis
      using assms(2) True by (auto simp: apply_call_versions counts_ok_def)
  next
    case (Some x)
    then have "counts_ok x"
      by (rule assms(1))
    then show ?thesis
      using assms(2) True Some by (auto simp: apply_call_versions counts_ok_def)
  qed
qed

lemma replay_counts_ok:
  assumes "\<And>v s. DAList.lookup (versions d) v = Some s \<Longrightarrow> counts_ok s"
      and "DAList.lookup (versions (replay d cs)) v = Some s"
  shows "counts_ok s"
  using assms
proof (induction cs arbitrary: d)
  case Nil
  then show ?case by simp
next
  case (Cons c cs)
  show ?case
  proof (rule Cons.IH)
    show "DAList.lookup (versions (replay (apply_call d c) cs)) v = Some s"
      using Cons.prems(2) by simp
  next
    fix v' s'
    assume "DAList.lookup (versions (apply_call d c)) v' = Some s'"
    then show "counts_ok s'"
      using apply_call_counts_ok [of d c v' s'] Cons.prems(1) by blast
  qed
qed

lemma choice_in_set: "seq \<noteq> [] \<Longrightarrow> choice r seq \<in> set seq"
  by (simp add: choice_def)

lemma set_untested_titles:
  "set (untested_titles T) =
     {t \<in> set (torrent_titles T). \<not> has_verdict (results T) t (library_version T)}"
  by (auto simp: untested_titles_def has_verdict_def has_key_def split: option.splits)

lemma overflow_bound_large: "100000 < overflow_bound"
proof -
  have "(2::real) ^ 970 * 2 \<le> 2 ^ 970 * 2 ^ 54"
    by (intro mult_left_mono) simp_all
  then have "(2::real) ^ 970 * 2 \<le> 2 ^ 1024"
    by (simp flip: power_add)
  moreover have "(100000::real) < 2 ^ 970"
  proof -
    have "(100000::real) < 2 ^ 17"
      by simp
    also have "\<dots> \<le> 2 ^ 970"
      by (rule power_increasing) simp_all
    finally show ?thesis .
  qed
  ultimately show ?thesis
    by (simp add: overflow_bound_def)
qed

lemma overflow_bound_eval:
  "x \<le> 100000 \<Longrightarrow> (overflow_bound \<le> x) = False"
  "x \<le> 100000 \<Longrightarrow> 1 \<le> k \<Longrightarrow> (overflow_bound * k \<le> x) = False"
proof -
  show "(overflow_bound \<le> x) = False" if "x \<le> 100000"
    using that overflow_bound_large by simp
  show "(overflow_bound * k \<le> x) = False" if "x \<le> 100000" "1 \<le> k"
  proof -
    have "overflow_bound * 1 \<le> overflow_bound * k"
      using that(2) overflow_bound_large by (intro mult_left_mono) simp_all
    then have "100000 < overflow_bound * k"
      using overflow_bound_large by linarith
    then show ?thesis
      using that(1) by simp
  qed
qed

lemma truediv_small:
  "b \<noteq> 0 \<Longrightarrow> \<bar>real_of_int a / real_of_int b\<bar> \<le> 1000
     \<Longrightarrow> truediv a b = Inr (real_of_int a / real_of_int b)"
  using overflow_bound_large by (simp add: truediv_def)

lemma float_mul_small: "\<bar>x * y\<bar> \<le> 100000 \<Longrightarrow> float_mul x y = Finite (x * y)"
  using overflow_bound_large by (auto simp: float_mul_def)

text \<open>The report, with the branches of \<open>print_statistics\<close> side by side.\<close>

lemma print_statistics_cases:
  "print_statistics T =
     (if torrent_titles T = [] then Inr None
      else if 0 < tested_of (results T) (library_version T)
              \<and> overflow_bound
                   \<le> \<bar>real_of_int (correct_of (results T) (library_version T))
                        / real_of_int (tested_of (results T) (library_version T))\<bar>
      then Inl OverflowError
      else Inr (Some \<lparr>shown_version = library_version T,
                      total_titles = length (torrent_titles T),
                      total_tested_titles = length (keys (titles (results T))),
                      tested_this_version = tested_of (results T) (library_version T),
                      accuracy =
                        (if tested_of (results T) (library_version T) > 0
                         then Some (float_mul
                                (real_of_int (correct_of (results T) (library_version T))
                                 / real_of_int (tested_of (results T) (library_version T))) 100)
                         else None),
                      untested_count = length (untested_titles T)\<rparr>))"
  by (simp add: print_statistics_def tested_of_def correct_of_def truediv_def Let_def
           split: option.splits)

lemma ratio_bounds:
  fixes c t :: int
  assumes "0 \<le> c" "c \<le> t" "0 < t"
  shows "0 \<le> real_of_int c / real_of_int t" "real_of_int c / real_of_int t \<le> 1"
  using assms by (simp_all add: divide_le_eq)

lemma print_statistics_ok:
  assumes "0 \<le> correct_of (results T) (library_version T)"
      and "correct_of (results T) (library_version T) \<le> tested_of (results T) (library_version T)"
  shows "\<exists>r. print_statistics T = Inr r \<and> (torrent_titles T \<noteq> [] \<longrightarrow> r \<noteq> None)"
proof (cases "0 < tested_of (results T) (library_version T)")
  case False
  then show ?thesis
    by (simp add: print_statistics_cases)
next
  case True
  have "\<bar>real_of_int (correct_of (results T) (library_version T))
         / real_of_int (tested_of (results T) (library_version T))\<bar> \<le> 1"
    using ratio_bounds [OF assms True] by simp
  then have "\<not> overflow_bound
               \<le> \<bar>real_of_int (correct_of (results T) (library_version T))
                    / real_of_int (tested_of (results T) (library_version T))\<bar>"
    using overflow_bound_large by linarith
  then show ?thesis
    by (simp add: print_statistics_cases)
qed

lemma length_untested_titles:
  "length (untested_titles T)
     + length (filter (\<lambda>t. has_verdict (results T) t (library_version T)) (torrent_titles T))
   = length (torrent_titles T)"
proof -
  have "untested_titles T =
          filter (\<lambda>t. \<not> has_verdict (results T) t (library_version T)) (torrent_titles T)"
    unfolding untested_titles_def
    by (rule filter_cong) (auto simp: has_verdict_def has_key_def split: option.splits)
  then show ?thesis
    using sum_length_filter_compl
      [of "\<lambda>t. has_verdict (results T) t (library_version T)" "torrent_titles T"]
    by simp
qed

section \<open>Rounds of the session\<close>

lemma ask_feedback_skip: "ask_feedback (Line ''s'' # ins) = (Inr ''s'', ins)"
  by (simp add: lower_def lower_char_def)

lemma ask_feedback_yes: "ask_feedback (Line ''y'' # ins) = (Inr ''y'', ins)"
  by (simp add: lower_def lower_char_def)

lemma testing_loop_skip:
  assumes "select_title E rm tts c T = Some title"
  shows "testing_loop E rm tts c T tr (Line ''s'' # ins) = testing_loop E rm tts (c + 1) T tr ins"
  using assms
  by (simp add: testing_loop.simps [of E rm tts c T tr "Line ''s'' # ins"] ask_feedback_skip
        del: ask_feedback.simps)

lemma testing_loop_skips:
  assumes "\<forall>j<k. select_title E rm tts (c + j) T \<noteq> None"
  shows "testing_loop E rm tts c T tr (replicate k (Line ''s'') @ ins)
           = testing_loop E rm tts (c + k) T tr ins"
  using assms
proof (induction k arbitrary: c)
  case 0
  then show ?case by simp
next
  case (Suc k)
  from Suc.prems have "select_title E rm tts (c + 0) T \<noteq> None"
    by blast
  then obtain title where sel: "select_title E rm tts c T = Some title"
    by auto
  have rest: "\<forall>j<k. select_title E rm tts (Suc c + j) T \<noteq> None"
  proof (intro allI impI)
    fix j assume "j < k"
    then have "select_title E rm tts (c + Suc j) T \<noteq> None"
      using Suc.prems by (meson Suc_less_eq)
    then show "select_title E rm tts (Suc c + j) T \<noteq> None"
      by simp
  qed
  have "testing_loop E rm tts c T tr (replicate (Suc k) (Line ''s'') @ ins)
          = testing_loop E rm tts (Suc c) T tr (replicate k (Line ''s'') @ ins)"
    using testing_loop_skip [OF sel, of tr "replicate k (Line ''s'') @ ins"] by simp
  also have "\<dots> = testing_loop E rm tts (Suc c + k) T tr ins"
    by (rule Suc.IH [OF rest])
  finally show ?case by simp
qed

lemma testing_loop_yes:
  assumes "select_title E rm tts c T = Some title"
      and "T1 = record_result T title (parse_title E title) True []
                  (now_version E c) (now_verdict E c)"
      and "print_statistics T1 = Inr r"
  shows "testing_loop E rm tts c T tr (Line ''y'' # ins) =
     (if (c + 1) mod 10 = 0
      then (case input_line ins of
              (Inl e, ins') \<Rightarrow> (Raised e, T1, tr @ [Saved (results T1), Report r])
            | (Inr l, ins') \<Rightarrow>
                if lower l \<notin> set [[], ''y'']
                then (Quit, T1, tr @ [Saved (results T1), Report r])
                else testing_loop E rm tts (c + 1) T1 (tr @ [Saved (results T1), Report r]) ins')
      else if (c + 1) mod 5 = 0
      then testing_loop E rm tts (c + 1) T1 (tr @ [Saved (results T1), Report r]) ins
      else testing_loop E rm tts (c + 1) T1 (tr @ [Saved (results T1)]) ins)"
proof -
  have five: "Suc c mod 5 = 0" if "Suc c mod 10 = 0"
    using that by presburger
  show ?thesis
    using assms five
    by (simp add: testing_loop.simps [of E rm tts c T tr "Line ''y'' # ins"] ask_feedback_yes
          ask_notes_def periodic_statistics_def Let_def del: ask_feedback.simps
          split: prod.splits sum.splits)
qed

text \<open>
  What every call of \<open>record_result\<close> keeps, the loop keeps: it changes the tester by
  such calls only.
\<close>

lemma ask_feedback_shorter: "ask_feedback ins = (Inr r, rest) \<Longrightarrow> length rest < length ins"
  by (induction ins rule: ask_feedback.induct) (auto simp: Let_def split: if_splits)

lemma input_line_shorter: "input_line ins = (Inr r, rest) \<Longrightarrow> length rest < length ins"
  by (induction ins rule: input_line.induct) auto

lemma ask_notes_shorter: "ask_notes ok ins = (Inr r, rest) \<Longrightarrow> length rest \<le> length ins"
  using input_line_shorter [of ins r rest] by (auto simp: ask_notes_def split: if_splits)

lemma testing_loop_preserves:
  assumes step: "\<And>U title parsed ok nts nv nt.
                   P U \<Longrightarrow> P (record_result U title parsed ok nts nv nt)"
  shows "P T \<Longrightarrow> testing_loop E rm tts c T tr ins = (ex, T', tr') \<Longrightarrow> P T'"
proof (induction "length ins" arbitrary: c T tr ins ex T' tr' rule: less_induct)
  case less
  note PT = \<open>P T\<close>
  note unfold = testing_loop.simps [of E rm tts c T tr ins]
  show ?case
  proof (cases "select_title E rm tts c T")
    case None
    then show ?thesis
      using less.prems(2) PT by (simp add: unfold)
  next
    case (Some title)
    obtain a ins1 where fb: "ask_feedback ins = (a, ins1)"
      by (cases "ask_feedback ins")
    show ?thesis
    proof (cases a)
      case (Inl e)
      then show ?thesis
        using less.prems(2) PT Some fb by (simp add: unfold)
    next
      case (Inr response)
      have short1: "length ins1 < length ins"
        using fb Inr by (simp add: ask_feedback_shorter)
      consider (q) "response = ''q''" | (s) "response = ''s''"
        | (v) "response \<noteq> ''q''" "response \<noteq> ''s''"
        by blast
      then show ?thesis
      proof cases
        case q
        then show ?thesis
          using less.prems(2) PT Some fb Inr by (simp add: unfold)
      next
        case s
        have "testing_loop E rm tts (Suc c) T tr ins1 = (ex, T', tr')"
          using less.prems(2) PT Some fb Inr s by (simp add: unfold)
        then show ?thesis
          using less.hyps [OF short1 PT] by blast
      next
        case v
        let ?ok = "response = ''y'' \<or> response = []"
        obtain b ins2 where nt: "ask_notes ?ok ins1 = (b, ins2)"
          by (cases "ask_notes ?ok ins1")
        show ?thesis
        proof (cases b)
          case (Inl e)
          then show ?thesis
            using less.prems(2) PT Some fb Inr v nt by (simp add: unfold)
        next
          case nts: (Inr nts)
          let ?T1 = "record_result T title (parse_title E title) ?ok nts
                       (now_version E c) (now_verdict E c)"
          let ?tr1 = "tr @ [Saved (results ?T1)]"
          have P1: "P ?T1"
            using PT by (rule step)
          have short2: "length ins2 < length ins"
            using ask_notes_shorter [of ?ok ins1 nts ins2] nt nts short1 by simp
          show ?thesis
          proof (cases "periodic_statistics (Suc c) ?T1 ?tr1")
            case (Inl e)
            then have "T' = ?T1"
              using less.prems(2) PT Some fb Inr v nt nts by (simp add: unfold Let_def)
            then show ?thesis
              using P1 by simp
          next
            case tr2: (Inr tr2)
            show ?thesis
            proof (cases "Suc c mod 10 = 0")
              case False
              have "testing_loop E rm tts (Suc c) ?T1 tr2 ins2 = (ex, T', tr')"
                using less.prems(2) PT Some fb Inr v nt nts tr2 False by (simp add: unfold Let_def)
              then show ?thesis
                using less.hyps [OF short2 P1] by blast
            next
              case True
              obtain d ins3 where il: "input_line ins2 = (d, ins3)"
                by (cases "input_line ins2")
              show ?thesis
              proof (cases d)
                case (Inl e)
                then have "T' = ?T1"
                  using less.prems(2) PT Some fb Inr v nt nts tr2 True il
                  by (simp add: unfold Let_def)
                then show ?thesis
                  using P1 by simp
              next
                case l: (Inr l)
                have short3: "length ins3 < length ins"
                  using input_line_shorter [of ins2 l ins3] il l short2 by simp
                show ?thesis
                proof (cases "lower l \<notin> set [[], ''y'']")
                  case True
                  then have "T' = ?T1"
                    using less.prems(2) PT Some fb Inr v nt nts tr2 \<open>Suc c mod 10 = 0\<close> il l
                    by (simp add: unfold Let_def)
                  then show ?thesis
                    using P1 by simp
                next
                  case False
                  then have "testing_loop E rm tts (Suc c) ?T1 tr2 ins3 = (ex, T', tr')"
                    using less.prems(2) PT Some fb Inr v nt nts tr2 \<open>Suc c mod 10 = 0\<close> il l
                    by (simp add: unfold Let_def)
                  then show ?thesis
                    using less.hyps [OF short3 P1] by blast
                qed
              qed
            qed
          qed
        qed
      qed
    qed
  qed
qed

lemma record_result_counters_ok:
  assumes "\<forall>v s. DAList.lookup (versions (results T)) v = Some s \<longrightarrow> counts_ok s"
  shows "\<forall>v s. DAList.lookup (versions (results (record_result T t p ok n nv nt))) v = Some s
           \<longrightarrow> counts_ok s"
proof (intro allI impI)
  fix v s
  let ?c = "\<lparr>call_version = library_version T, call_title = t, call_parsed = p, call_ok = ok,
             call_notes = n, call_now_version = nv, call_now_verdict = nt\<rparr>"
  have "DAList.lookup (versions (results (record_result T t p ok n nv nt))) v
          = DAList.lookup (versions (apply_call (results T) ?c)) v"
    by (simp add: apply_call_def versions_record_result)
  moreover assume "DAList.lookup (versions (results (record_result T t p ok n nv nt))) v = Some s"
  ultimately have "DAList.lookup (versions (apply_call (results T) ?c)) v = Some s"
    by simp
  then show "counts_ok s"
    using assms by (intro apply_call_counts_ok [of "results T" ?c v s]) blast+
qed

lemma counters_bounds:
  assumes "\<forall>v s. DAList.lookup (versions d) v = Some s \<longrightarrow> counts_ok s"
  shows "0 \<le> correct_of d v \<and> correct_of d v \<le> tested_of d v"
  using assms by (auto simp: correct_of_def tested_of_def counts_ok_def split: option.splits)

section \<open>Evaluating concrete documents\<close>

lemmas doc_eval =
  overflow_bound_eval float_mul_small fresh_tester_def create_new_results_def tested_of_def correct_of_def has_verdict_def
  verdict_at_def has_key_def versions_record_result titles_record_result
  keys_titles_record_result DAList.lookup_update

lemma keys_empty: "keys DAList.empty = []"
  by (simp add: keys_def DAList.empty.rep_eq)

lemma load_results_uncaught:
  "load_results
     \<lparr>files = [''results.json'' \<mapsto> \<lparr>readable = True, content = Undecodable\<rparr>],
      can_rename = True\<rparr>
     ''results.json'' ''20250101120000'' = (Inl UnicodeDecodeError :: _ + (unit document \<times> _))"
  "load_results
     \<lparr>files = [''results.json'' \<mapsto> \<lparr>readable = False, content = Stored create_new_results\<rparr>],
      can_rename = True\<rparr>
     ''results.json'' ''20250101120000'' = (Inl OSError :: _ + (unit document \<times> _))"
  by (simp_all add: load_results_def)

lemmas run_eval =
  interactive_testing_def testing_loop.simps select_title_def
  get_random_untested_title_def untested_titles_def choice_def
  ask_notes_def periodic_statistics_def print_statistics_cases
  lower_def lower_char_def plain_env_def keys_empty get_previously_tested_titles_def
  Let_def

lemma choice_pair: "choice j [a, b] = (if even j then a else b)"
proof -
  have len: "length [a, b] = 2"
    by simp
  have step: "choice j [a, b] = [a, b] ! (j mod 2)"
    unfolding choice_def len ..
  show ?thesis
  proof (cases "even j")
    case True
    then have "j mod 2 = 0"
      by presburger
    with True step show ?thesis
      by simp
  next
    case False
    then have "j mod 2 = Suc 0"
      by presburger
    with False step show ?thesis
      by simp
  qed
qed

lemma plain_select:
  "select_title plain_env False [] j fresh_tester
     = Some (if even j then ''Show.S01E02.1080p'' else ''Movie.2020.720p'')"
proof -
  have u: "untested_titles fresh_tester = [''Show.S01E02.1080p'', ''Movie.2020.720p'']"
    by (simp add: untested_titles_def doc_eval)
  have r: "rnd plain_env j = j"
    by (simp add: plain_env_def)
  show ?thesis
    by (simp add: select_title_def get_random_untested_title_def u r choice_pair)
qed

lemma session_exits:
  "fst (interactive_testing plain_env fresh_tester False [Line ''y'', Line ''N'', Line ''bad'']) = Done"
  "fst (interactive_testing plain_env fresh_tester False [Line ''y'', Line ''Q'']) = Quit"
  "fst (interactive_testing plain_env fresh_tester False [Line ''s'', Line ''?'', Interrupt])
     = Interrupted"
  "fst (interactive_testing plain_env fresh_tester False [Line ''y'']) = Raised EOFError"
  "fst (interactive_testing plain_env fresh_tester True []) = Done"
  by (simp_all add: run_eval doc_eval)

section \<open>Claims\<close>

text \<open>
  C1. After \<open>record_result\<close> for title \<open>t\<close> with the tester's version \<open>v\<close>, the title is
  among the previously tested titles, the version has an entry, its \<open>tested_count\<close> is
  one more than before the call (an absent entry counting as zero, the value it is
  created with), and its \<open>correct_count\<close> is one more when the verdict is "correct" and
  the same when it is not.  This holds on every call, whatever the document held for
  \<open>(t, v)\<close> before.
\<close>

theorem record_result_counts:
  "t \<in> set (get_previously_tested_titles (record_result T t parsed ok nts nv nt))
   \<and> has_key (versions (results (record_result T t parsed ok nts nv nt))) (library_version T)
   \<and> tested_of (results (record_result T t parsed ok nts nv nt)) (library_version T)
       = tested_of (results T) (library_version T) + 1
   \<and> (ok \<longrightarrow> correct_of (results (record_result T t parsed ok nts nv nt)) (library_version T)
              = correct_of (results T) (library_version T) + 1)
   \<and> (\<not> ok \<longrightarrow> correct_of (results (record_result T t parsed ok nts nv nt)) (library_version T)
                = correct_of (results T) (library_version T))"
  by (simp add: get_previously_tested_titles_def set_keys has_key_def
        titles_record_result versions_record_result
        tested_of_record_result correct_of_record_result)

theorem record_result_counts_witness:
  "''A'' \<in> set (get_previously_tested_titles
      (record_result
         \<lparr>torrent_titles = [''A''], library_version = ''dev'', results = create_new_results\<rparr>
         ''A'' () True [] ''t1'' ''t2''))
   \<and> tested_of (results (record_result
         \<lparr>torrent_titles = [''A''], library_version = ''dev'', results = create_new_results\<rparr>
         ''A'' () True [] ''t1'' ''t2'')) ''dev'' = 1
   \<and> correct_of (results (record_result
         \<lparr>torrent_titles = [''A''], library_version = ''dev'', results = create_new_results\<rparr>
         ''A'' () True [] ''t1'' ''t2'')) ''dev'' = 1"
  using record_result_counts [of "''A''"
      "\<lparr>torrent_titles = [''A''], library_version = ''dev'', results = create_new_results\<rparr>"
      "()" True "[]" "''t1''" "''t2''"]
  by (simp add: tested_of_def correct_of_def create_new_results_def)

text \<open>
  C2 (as the program has it).  When the document already holds a verdict for \<open>(t, v)\<close>,
  \<open>record_result\<close> for \<open>(t, v)\<close> puts the new verdict where the old one stood: the keys
  of \<open>titles\<close> and of \<open>titles[t]\<close> are the same lists as before, \<open>v\<close> occurs once among
  the keys of \<open>titles[t]\<close>, and \<open>titles[t][v]\<close> is the new verdict.  The counters are
  bumped all the same: \<open>tested_count\<close> by one, \<open>correct_count\<close> by one when the verdict
  is "correct".
\<close>

theorem rerecord_in_place:
  assumes "DAList.lookup (titles (results T)) t = Some e"
      and "has_key e (library_version T)"
  shows "DAList.lookup (titles (results (record_result T t p ok n nv nt))) t =
           Some (DAList.update (library_version T)
                   \<lparr>is_correct = ok, parsed_result = p, verdict_notes = n, verdict_timestamp = nt\<rparr> e)
       \<and> keys (DAList.update (library_version T)
                   \<lparr>is_correct = ok, parsed_result = p, verdict_notes = n, verdict_timestamp = nt\<rparr> e)
           = keys e
       \<and> length (filter (\<lambda>k. k = library_version T) (keys e)) = 1
       \<and> verdict_at (results (record_result T t p ok n nv nt)) t (library_version T) =
           Some \<lparr>is_correct = ok, parsed_result = p, verdict_notes = n, verdict_timestamp = nt\<rparr>
       \<and> keys (titles (results (record_result T t p ok n nv nt))) = keys (titles (results T))
       \<and> tested_of (results (record_result T t p ok n nv nt)) (library_version T)
           = tested_of (results T) (library_version T) + 1
       \<and> correct_of (results (record_result T t p ok n nv nt)) (library_version T)
           = correct_of (results T) (library_version T) + (if ok then 1 else 0)"
proof -
  have "has_key (titles (results T)) t"
    using assms(1) by (simp add: has_key_def)
  moreover have "library_version T \<in> set (keys e)"
    using assms(2) by (simp add: set_keys)
  ultimately show ?thesis
    using assms
    by (simp add: titles_record_result keys_update keys_titles_record_result verdict_at_def
          tested_of_record_result correct_of_record_result count_distinct_member distinct_keys)
qed

text \<open>
  C2 as stated fails: recording a verdict for the same title and version twice, starting
  from the empty document, leaves \<open>tested_count\<close> and \<open>correct_count\<close> at 2.
\<close>

theorem rerecord_counts_again_counterexample:
  "has_verdict (results (record_result fresh_tester ''Movie.2020.720p'' () True [] ''t1'' ''t2''))
     ''Movie.2020.720p'' ''dev''
   \<and> tested_of (results (record_result fresh_tester ''Movie.2020.720p'' () True [] ''t1'' ''t2''))
       ''dev'' = 1
   \<and> tested_of (results (record_result
         (record_result fresh_tester ''Movie.2020.720p'' () True [] ''t1'' ''t2'')
         ''Movie.2020.720p'' () True [] ''t3'' ''t4'')) ''dev'' = 2
   \<and> correct_of (results (record_result
         (record_result fresh_tester ''Movie.2020.720p'' () True [] ''t1'' ''t2'')
         ''Movie.2020.720p'' () True [] ''t3'' ''t4'')) ''dev'' = 2"
proof -
  have base: "tested_of (results fresh_tester) ''dev'' = 0"
    "correct_of (results fresh_tester) ''dev'' = 0" "library_version fresh_tester = ''dev''"
    by (simp_all add: fresh_tester_def tested_of_def correct_of_def create_new_results_def)
  show ?thesis
    by (simp add: has_verdict_def has_key_def titles_record_result tested_of_record_result
          correct_of_record_result base DAList.lookup_update)
qed

text \<open>
  C6. In every document built from the empty one by calls of \<open>record_result\<close>, each
  version entry has \<open>0 \<le> correct_count \<le> tested_count\<close>; and a call of \<open>record_result\<close>
  on any document keeps every version entry and lowers neither of its counters.
\<close>

theorem counters_invariant:
  fixes cs :: "'p call list"
  shows
  "(\<forall>v s. DAList.lookup (versions (replay create_new_results cs)) v = Some s \<longrightarrow>
       0 \<le> correct_count s \<and> correct_count s \<le> tested_count s)
   \<and> (\<forall>(d :: 'p document) c v s. DAList.lookup (versions d) v = Some s \<longrightarrow>
         (\<exists>s'. DAList.lookup (versions (apply_call d c)) v = Some s'
              \<and> tested_count s \<le> tested_count s' \<and> correct_count s \<le> correct_count s'))"
proof (intro conjI allI impI)
  fix v s
  assume *: "DAList.lookup (versions (replay create_new_results cs)) v = Some s"
  have "counts_ok s"
  proof (rule replay_counts_ok [of create_new_results cs v s])
    show "DAList.lookup (versions (replay create_new_results cs)) v = Some s"
      by (rule *)
  next
    fix v' s'
    assume "DAList.lookup (versions (create_new_results :: 'p document)) v' = Some s'"
    then show "counts_ok s'"
      by (simp add: create_new_results_def)
  qed
  then show "0 \<le> correct_count s" and "correct_count s \<le> tested_count s"
    by (simp_all add: counts_ok_def)
next
  fix d :: "'p document" and c v s
  assume "DAList.lookup (versions d) v = Some s"
  then show "\<exists>s'. DAList.lookup (versions (apply_call d c)) v = Some s'
              \<and> tested_count s \<le> tested_count s' \<and> correct_count s \<le> correct_count s'"
    by (auto simp: apply_call_versions)
qed

text \<open>
  C10. \<open>record_result\<close> for title \<open>t\<close> with version \<open>v\<close> leaves \<open>titles[t']\<close> as it was
  for every other title \<open>t'\<close>, leaves \<open>titles[t][v']\<close> and \<open>versions[v']\<close> as they were for
  every other version \<open>v'\<close>, keeps the timestamp of an entry \<open>versions[v]\<close> that was
  there, and changes neither the dataset nor the version of the tester.
\<close>

theorem record_result_frame_effect:
  "(t' \<noteq> t \<longrightarrow> DAList.lookup (titles (results (record_result T t p ok n nv nt))) t'
                 = DAList.lookup (titles (results T)) t')
   \<and> (v' \<noteq> library_version T \<longrightarrow>
        verdict_at (results (record_result T t p ok n nv nt)) t v' = verdict_at (results T) t v'
        \<and> DAList.lookup (versions (results (record_result T t p ok n nv nt))) v'
            = DAList.lookup (versions (results T)) v')
   \<and> (\<forall>s. DAList.lookup (versions (results T)) (library_version T) = Some s \<longrightarrow>
          (\<exists>s'. DAList.lookup (versions (results (record_result T t p ok n nv nt)))
                  (library_version T) = Some s'
                \<and> timestamp s' = timestamp s))
   \<and> torrent_titles (record_result T t p ok n nv nt) = torrent_titles T
   \<and> library_version (record_result T t p ok n nv nt) = library_version T"
  by (auto simp: titles_record_result versions_record_result verdict_at_def DAList.lookup_update
        split: option.splits)

text \<open>
  C3. \<open>get_random_untested_title\<close> returns nothing or a title of the dataset that has no
  verdict for the tester's version in \<open>titles\<close>, whatever the random draw; it returns
  nothing exactly when every title of the dataset has a verdict for that version.
\<close>

theorem get_random_untested_title_sound:
  "(case get_random_untested_title r T of
      None \<Rightarrow> True
    | Some t \<Rightarrow> t \<in> set (torrent_titles T)
               \<and> \<not> has_verdict (results T) t (library_version T))
   \<and> (get_random_untested_title r T = None \<longleftrightarrow>
        (\<forall>t \<in> set (torrent_titles T). has_verdict (results T) t (library_version T)))"
proof -
  have "choice r (untested_titles T) \<in> set (untested_titles T)" if "untested_titles T \<noteq> []"
    using that by (rule choice_in_set)
  moreover have "untested_titles T = [] \<longleftrightarrow>
      (\<forall>t \<in> set (torrent_titles T). has_verdict (results T) t (library_version T))"
    using set_untested_titles [of T] by (auto simp flip: set_empty)
  ultimately show ?thesis
    using set_untested_titles [of T]
    by (auto simp: get_random_untested_title_def Let_def)
qed

text \<open>
  C4 (as the program has it).  When there is no file under the results path,
  \<open>load_results\<close> returns the empty document and leaves the file system alone.  When
  the file can be opened and holds text that is not JSON, it returns the empty document,
  and the file is moved to the results path followed by \<open>.bak.\<close> and the time stamp
  when the rename succeeds, and stays where it is when the rename fails.  When the file
  holds a document, that document is returned.
\<close>

theorem load_results_cases:
  "(files fs path = None \<longrightarrow> load_results fs path stamp = Inr (create_new_results, fs))
   \<and> (\<forall>f. files fs path = Some f \<and> readable f \<and> content f = Malformed \<longrightarrow>
         load_results fs path stamp =
           Inr (create_new_results,
                if can_rename fs
                then fs\<lparr>files := ((files fs)(path := None))(path @ ''.bak.'' @ stamp \<mapsto> f)\<rparr>
                else fs))
   \<and> (\<forall>f d. files fs path = Some f \<and> readable f \<and> content f = Stored d \<longrightarrow>
         load_results fs path stamp = Inr (d, fs))"
  by (auto simp: load_results_def backup_results_def Let_def)

text \<open>
  C5 (as the program has it).  \<open>print_statistics\<close> computes the accuracy, as
  \<open>correct_count / tested_count * 100\<close>, only when \<open>tested_count\<close> is positive.  When
  \<open>tested_count\<close> is not positive nothing is divided, the method does not raise and the
  report is without the accuracy.  The accuracy, when the report has one, is a finite
  number between 0 and 100 whenever the entry of the version has
  \<open>0 \<le> correct_count \<le> tested_count\<close>.
\<close>

theorem accuracy_defined_and_bounded:
  "(tested_of (results T) (library_version T) \<le> 0 \<longrightarrow> (\<exists>r. print_statistics T = Inr r))
   \<and> (\<forall>s. print_statistics T = Inr (Some s) \<longrightarrow>
        (tested_of (results T) (library_version T) \<le> 0 \<longrightarrow> accuracy s = None)
      \<and> (0 < tested_of (results T) (library_version T) \<longrightarrow>
           accuracy s = Some (float_mul
                                (real_of_int (correct_of (results T) (library_version T))
                                 / real_of_int (tested_of (results T) (library_version T))) 100))
      \<and> (\<forall>a. 0 \<le> correct_of (results T) (library_version T)
               \<and> correct_of (results T) (library_version T)
                   \<le> tested_of (results T) (library_version T)
               \<and> accuracy s = Some a \<longrightarrow> (\<exists>x. a = Finite x \<and> 0 \<le> x \<and> x \<le> 100)))"
proof -
  have bound: "\<exists>x. float_mul (real_of_int c / real_of_int t) 100 = Finite x \<and> 0 \<le> x \<and> x \<le> 100"
    if "0 \<le> c" "c \<le> t" "0 < t" for c t :: int
  proof -
    have q: "0 \<le> real_of_int c / real_of_int t" "real_of_int c / real_of_int t \<le> 1"
      using ratio_bounds [OF that] .
    have "0 \<le> real_of_int c / real_of_int t * 100"
      using q(1) by (rule mult_nonneg_nonneg) simp
    moreover have "real_of_int c / real_of_int t * 100 \<le> 1 * 100"
      using q(2) by (rule mult_right_mono) simp
    ultimately have "\<bar>real_of_int c / real_of_int t * 100\<bar> \<le> 100000"
      by linarith
    then have "float_mul (real_of_int c / real_of_int t) 100
                 = Finite (real_of_int c / real_of_int t * 100)"
      by (rule float_mul_small)
    moreover have "0 \<le> real_of_int c / real_of_int t * 100"
      using q(1) by (rule mult_nonneg_nonneg) simp
    moreover have "real_of_int c / real_of_int t * 100 \<le> 100"
      using mult_right_mono [OF q(2), of 100] by simp
    ultimately show ?thesis
      by blast
  qed
  show ?thesis
    using bound [of "correct_of (results T) (library_version T)"
                    "tested_of (results T) (library_version T)"]
    by (auto simp: print_statistics_cases split: if_splits)
qed

text \<open>
  C7 (as the program has it).  In the report, the count of untested titles is the size of
  the dataset minus the number of dataset entries that have a verdict for the tester's
  version in \<open>titles\<close>; the count of tested titles shown beside it is the counter
  \<open>tested_count\<close> of the version, zero when the version has no entry.
\<close>

theorem untested_count_by_titles:
  assumes "print_statistics T = Inr (Some s)"
  shows "total_titles s = length (torrent_titles T)
       \<and> tested_this_version s = tested_of (results T) (library_version T)
       \<and> untested_count s
           = total_titles s
             - length (filter (\<lambda>t. has_verdict (results T) t (library_version T))
                         (torrent_titles T))
       \<and> length (filter (\<lambda>t. has_verdict (results T) t (library_version T)) (torrent_titles T))
           \<le> total_titles s"
  using assms length_untested_titles [of T]
  by (auto simp: print_statistics_cases split: if_splits)

text \<open>
  C8 (as the program has it).  However the \<^verbatim>\<open>try\<close> block of a session is left (nothing
  left to test, the operator quits or declines to continue, an interrupt or the end of
  the input at a prompt), the session returns after the \<^verbatim>\<open>finally\<close> clause: it calls
  \<open>save_results\<close> with the final document and then \<open>print_statistics\<close>, and these are the
  last things it does.  The report is printed when the dataset is not empty and every
  version entry of the document the session starts from has
  \<open>0 \<le> correct_count \<le> tested_count\<close>; nothing is printed when the dataset is empty.
\<close>

theorem final_save_and_report:
  "\<exists>ex T' tr.
      torrent_titles T' = torrent_titles T
    \<and> (case print_statistics T' of
         Inr r \<Rightarrow> interactive_testing E T retest_mode ins
                   = (ex, T', tr @ [Saved (results T'), Report r])
       | Inl e \<Rightarrow> interactive_testing E T retest_mode ins
                   = (Raised e, T', tr @ [Saved (results T')]))
    \<and> (torrent_titles T = [] \<longrightarrow> print_statistics T' = Inr None)
    \<and> (torrent_titles T \<noteq> []
         \<and> (\<forall>v s. DAList.lookup (versions (results T)) v = Some s \<longrightarrow> counts_ok s)
       \<longrightarrow> (\<exists>s. print_statistics T' = Inr (Some s)))"
proof -
  obtain ex T' tr where body:
    "(if retest_mode
      then (let titles_to_test = get_previously_tested_titles T
            in if titles_to_test = [] then (Done, T, [])
               else testing_loop E True (shuffle E titles_to_test) 0 T [] ins)
      else testing_loop E False [] 0 T [] ins) = (ex, T', tr)"
    using prod_cases3 by blast
  have keep: "P T'"
    if "P T" "\<And>U title parsed ok nts nv nt.
                P U \<Longrightarrow> P (record_result U title parsed ok nts nv nt)"
    for P :: "'a tester \<Rightarrow> bool"
    using body that(1) testing_loop_preserves [of P, OF that(2)]
    by (auto simp: Let_def split: if_splits)
  have same: "torrent_titles T' = torrent_titles T"
    by (rule keep [of "\<lambda>U. torrent_titles U = torrent_titles T"]) simp_all
  have ok: "\<forall>v s. DAList.lookup (versions (results T')) v = Some s \<longrightarrow> counts_ok s"
    if "\<forall>v s. DAList.lookup (versions (results T)) v = Some s \<longrightarrow> counts_ok s"
    using that
    by (rule keep [of "\<lambda>U. \<forall>v s. DAList.lookup (versions (results U)) v = Some s
                                \<longrightarrow> counts_ok s"])
       (rule record_result_counters_ok)
  have printed: "\<exists>s. print_statistics T' = Inr (Some s)"
    if "torrent_titles T \<noteq> []"
       "\<forall>v s. DAList.lookup (versions (results T)) v = Some s \<longrightarrow> counts_ok s"
    using print_statistics_ok [of T'] counters_bounds [OF ok [OF that(2)], of "library_version T'"]
      that(1) same
    by auto
  have silent: "print_statistics T' = Inr None" if "torrent_titles T = []"
    using that same by (simp add: print_statistics_cases)
  have last: "(case print_statistics T' of
         Inr r \<Rightarrow> interactive_testing E T retest_mode ins
                   = (ex', T', tr @ [Saved (results T'), Report r])
       | Inl e \<Rightarrow> interactive_testing E T retest_mode ins
                   = (Raised e, T', tr @ [Saved (results T')]))"
    if "ex' = (if ex = Raised KeyboardInterrupt then Interrupted else ex)" for ex'
    unfolding interactive_testing_def body using that
    by (simp split: sum.splits)
  show ?thesis
    using same last [OF refl] silent printed by blast
qed

text \<open>
  C9. A skipped round moves the round counter on by one as a recorded round does, so the
  counter that decides on the report after every fifth round and on the question after
  every tenth counts the skipped rounds: after \<open>k\<close> skipped rounds and one round answered
  "y", begun at counter \<open>c\<close>, the question is asked when \<open>c + k + 1\<close> is a multiple of
  ten and the report is printed when it is a multiple of five.
\<close>

theorem skipped_rounds_count:
  assumes "\<forall>j<k. select_title E rm tts (c + j) T \<noteq> None"
      and "select_title E rm tts (c + k) T = Some title"
      and "T1 = record_result T title (parse_title E title) True []
                  (now_version E (c + k)) (now_verdict E (c + k))"
      and "print_statistics T1 = Inr r"
  shows "testing_loop E rm tts c T tr (replicate k (Line ''s'') @ Line ''y'' # ins) =
     (if (c + k + 1) mod 10 = 0
      then (case input_line ins of
              (Inl e, ins') \<Rightarrow> (Raised e, T1, tr @ [Saved (results T1), Report r])
            | (Inr l, ins') \<Rightarrow>
                if lower l \<notin> set [[], ''y'']
                then (Quit, T1, tr @ [Saved (results T1), Report r])
                else testing_loop E rm tts (c + k + 1) T1
                       (tr @ [Saved (results T1), Report r]) ins')
      else if (c + k + 1) mod 5 = 0
      then testing_loop E rm tts (c + k + 1) T1 (tr @ [Saved (results T1), Report r]) ins
      else testing_loop E rm tts (c + k + 1) T1 (tr @ [Saved (results T1)]) ins)"
  unfolding testing_loop_skips [OF assms(1)]
  by (rule testing_loop_yes [OF assms(2) assms(3) assms(4)])

section \<open>Concrete instances\<close>

theorem rerecord_in_place_witness:
  "DAList.lookup (titles (results
       (record_result fresh_tester ''Movie.2020.720p'' () True [] ''t1'' ''t2'')))
     ''Movie.2020.720p''
     = Some (DAList.update ''dev''
               \<lparr>is_correct = True, parsed_result = (), verdict_notes = [],
                verdict_timestamp = ''t2''\<rparr> DAList.empty)
   \<and> verdict_at (results (record_result
          (record_result fresh_tester ''Movie.2020.720p'' () True [] ''t1'' ''t2'')
          ''Movie.2020.720p'' () False ''wrong year'' ''t3'' ''t4''))
        ''Movie.2020.720p'' ''dev''
       = Some \<lparr>is_correct = False, parsed_result = (), verdict_notes = ''wrong year'',
               verdict_timestamp = ''t4''\<rparr>
   \<and> tested_of (results (record_result
          (record_result fresh_tester ''Movie.2020.720p'' () True [] ''t1'' ''t2'')
          ''Movie.2020.720p'' () False ''wrong year'' ''t3'' ''t4'')) ''dev'' = 2"
proof -
  have h1: "DAList.lookup (titles (results
       (record_result fresh_tester ''Movie.2020.720p'' () True [] ''t1'' ''t2'')))
     ''Movie.2020.720p''
     = Some (DAList.update ''dev''
               \<lparr>is_correct = True, parsed_result = (), verdict_notes = [],
                verdict_timestamp = ''t2''\<rparr> DAList.empty)"
    by (simp add: doc_eval)
  have h2: "has_key (DAList.update ''dev''
               \<lparr>is_correct = True, parsed_result = (), verdict_notes = [],
                verdict_timestamp = ''t2''\<rparr> DAList.empty)
              (library_version
                 (record_result fresh_tester ''Movie.2020.720p'' () True [] ''t1'' ''t2''))"
    by (simp add: doc_eval)
  show ?thesis
    using h1 rerecord_in_place [OF h1 h2, of "()" False "''wrong year''" "''t3''" "''t4''"]
    by (simp add: doc_eval)
qed

theorem counters_invariant_witness:
  "DAList.lookup (versions (replay create_new_results
       [\<lparr>call_version = ''1.0'', call_title = ''X'', call_parsed = (), call_ok = False,
         call_notes = ''wrong year'', call_now_version = ''t1'', call_now_verdict = ''t2''\<rparr>]))
     ''1.0''
     = Some \<lparr>tested_count = 1, correct_count = 0, timestamp = ''t1''\<rparr>
   \<and> 0 \<le> correct_count \<lparr>tested_count = 1, correct_count = 0, timestamp = ''t1''\<rparr>
   \<and> correct_count \<lparr>tested_count = 1, correct_count = 0, timestamp = ''t1''\<rparr>
       \<le> tested_count \<lparr>tested_count = 1, correct_count = 0, timestamp = ''t1''\<rparr>"
proof -
  have h: "DAList.lookup (versions (replay create_new_results
       [\<lparr>call_version = ''1.0'', call_title = ''X'', call_parsed = (), call_ok = False,
         call_notes = ''wrong year'', call_now_version = ''t1'', call_now_verdict = ''t2''\<rparr>]))
     ''1.0''
     = Some \<lparr>tested_count = 1, correct_count = 0, timestamp = ''t1''\<rparr>"
    by (simp add: apply_call_versions create_new_results_def)
  show ?thesis
    using h counters_invariant
      [of "[\<lparr>call_version = ''1.0'', call_title = ''X'', call_parsed = (), call_ok = False,
         call_notes = ''wrong year'', call_now_version = ''t1'', call_now_verdict = ''t2''\<rparr>]"]
    by blast
qed

theorem record_result_frame_effect_witness:
  "''Show.S01E02.1080p'' \<noteq> ''Movie.2020.720p'' \<and> ''1.0'' \<noteq> library_version fresh_tester
   \<and> DAList.lookup (titles (results
         (record_result fresh_tester ''Movie.2020.720p'' () True [] ''t1'' ''t2'')))
       ''Show.S01E02.1080p''
       = DAList.lookup (titles (results fresh_tester)) ''Show.S01E02.1080p''
   \<and> DAList.lookup (versions (results
         (record_result fresh_tester ''Movie.2020.720p'' () True [] ''t1'' ''t2''))) ''1.0''
       = DAList.lookup (versions (results fresh_tester)) ''1.0''"
  using record_result_frame_effect
    [of "''Show.S01E02.1080p''" "''Movie.2020.720p''" fresh_tester "()" True "[]"
        "''t1''" "''t2''" "''1.0''"]
  by (simp add: fresh_tester_def)

theorem get_random_untested_title_sound_witness:
  "get_random_untested_title 5
     (record_result fresh_tester ''Movie.2020.720p'' () True [] ''t1'' ''t2'')
     = Some ''Show.S01E02.1080p''
   \<and> ''Show.S01E02.1080p'' \<in> set (torrent_titles
         (record_result fresh_tester ''Movie.2020.720p'' () True [] ''t1'' ''t2''))
   \<and> \<not> has_verdict (results
         (record_result fresh_tester ''Movie.2020.720p'' () True [] ''t1'' ''t2''))
         ''Show.S01E02.1080p'' ''dev''"
proof -
  have h: "get_random_untested_title 5
     (record_result fresh_tester ''Movie.2020.720p'' () True [] ''t1'' ''t2'')
     = Some ''Show.S01E02.1080p''"
    by (simp add: get_random_untested_title_def untested_titles_def choice_def doc_eval)
  show ?thesis
    using h get_random_untested_title_sound
      [where r = 5
         and T = "record_result fresh_tester ''Movie.2020.720p'' () True [] ''t1'' ''t2''"]
    by (simp add: fresh_tester_def)
qed

theorem load_results_cases_witness:
  "(case load_results
           \<lparr>files = [''results.json'' \<mapsto> \<lparr>readable = True, content = Malformed\<rparr>],
            can_rename = True\<rparr>
           ''results.json'' ''20250101120000'' of
      Inl e \<Rightarrow> False
    | Inr (d, fs') \<Rightarrow>
        d = (create_new_results :: unit document)
        \<and> files fs' ''results.json'' = None
        \<and> files fs' ''results.json.bak.20250101120000''
            = Some \<lparr>readable = True, content = Malformed\<rparr>)"
  using load_results_cases
    [of "\<lparr>files = [''results.json'' \<mapsto> \<lparr>readable = True, content = Malformed\<rparr>],
          can_rename = True\<rparr> :: unit file_system"
        "''results.json''" "''20250101120000''"]
  by simp

theorem load_results_no_backup_counterexample:
  "load_results
     \<lparr>files = [''results.json'' \<mapsto> \<lparr>readable = True, content = Malformed\<rparr>],
      can_rename = False\<rparr>
     ''results.json'' ''20250101120000''
   = Inr (create_new_results :: unit document,
          \<lparr>files = [''results.json'' \<mapsto> \<lparr>readable = True, content = Malformed\<rparr>],
           can_rename = False\<rparr>)"
  by (simp add: load_results_def backup_results_def)

theorem accuracy_above_100_counterexample:
  "print_statistics
     \<lparr>torrent_titles = [''Movie.2020.720p''], library_version = ''dev'',
      results = \<lparr>versions = DAList.update ''dev''
                   \<lparr>tested_count = 1, correct_count = 2, timestamp = ''t1''\<rparr> DAList.empty,
                 titles = (DAList.empty :: (string, (string, unit title_verdict) dict) dict)\<rparr>\<rparr>
   = Inr (Some \<lparr>shown_version = ''dev'', total_titles = 1, total_tested_titles = 0,
                tested_this_version = 1, accuracy = Some (Finite 200), untested_count = 1\<rparr>)"
  by (simp add: print_statistics_cases tested_of_def correct_of_def keys_empty untested_titles_def
        has_key_def DAList.lookup_update overflow_bound_eval float_mul_small)

theorem accuracy_defined_and_bounded_witness:
  "print_statistics (record_result fresh_tester ''Movie.2020.720p'' () True [] ''t1'' ''t2'')
     = Inr (Some \<lparr>shown_version = ''dev'', total_titles = 2, total_tested_titles = 1,
                  tested_this_version = 1, accuracy = Some (Finite 100), untested_count = 1\<rparr>)
   \<and> (0::real) \<le> 100 \<and> (100::real) \<le> 100"
proof -
  have h: "print_statistics
      (record_result fresh_tester ''Movie.2020.720p'' () True [] ''t1'' ''t2'')
     = Inr (Some \<lparr>shown_version = ''dev'', total_titles = 2, total_tested_titles = 1,
                  tested_this_version = 1, accuracy = Some (Finite 100), untested_count = 1\<rparr>)"
    by (simp add: print_statistics_cases untested_titles_def keys_empty doc_eval)
  show ?thesis
    using h accuracy_defined_and_bounded
      [of "record_result fresh_tester ''Movie.2020.720p'' () True [] ''t1'' ''t2''"]
    by simp
qed

theorem untested_count_counterexample:
  "print_statistics
     (record_result (record_result fresh_tester ''Movie.2020.720p'' () True [] ''t1'' ''t2'')
        ''Movie.2020.720p'' () True [] ''t3'' ''t4'')
     = Inr (Some \<lparr>shown_version = ''dev'', total_titles = 2, total_tested_titles = 1,
                  tested_this_version = 2, accuracy = Some (Finite 100), untested_count = 1\<rparr>)
   \<and> int 1 \<noteq> int 2 - 2"
  by (simp add: print_statistics_cases untested_titles_def keys_empty doc_eval)

theorem untested_count_by_titles_witness:
  "print_statistics (record_result fresh_tester ''Movie.2020.720p'' () True [] ''t1'' ''t2'')
     = Inr (Some \<lparr>shown_version = ''dev'', total_titles = 2, total_tested_titles = 1,
                  tested_this_version = 1, accuracy = Some (Finite 100), untested_count = 1\<rparr>)
   \<and> untested_count \<lparr>shown_version = ''dev'', total_titles = 2, total_tested_titles = 1,
                  tested_this_version = 1, accuracy = Some (Finite 100), untested_count = 1\<rparr>
       = total_titles \<lparr>shown_version = ''dev'', total_titles = 2, total_tested_titles = 1,
                  tested_this_version = 1, accuracy = Some (Finite 100), untested_count = 1\<rparr>
         - length (filter
             (\<lambda>t. has_verdict
                    (results (record_result fresh_tester ''Movie.2020.720p'' () True []
                                ''t1'' ''t2''))
                    t
                    (library_version (record_result fresh_tester ''Movie.2020.720p'' () True []
                                        ''t1'' ''t2'')))
             (torrent_titles (record_result fresh_tester ''Movie.2020.720p'' () True []
                                ''t1'' ''t2'')))"
proof -
  have h: "print_statistics
      (record_result fresh_tester ''Movie.2020.720p'' () True [] ''t1'' ''t2'')
     = Inr (Some \<lparr>shown_version = ''dev'', total_titles = 2, total_tested_titles = 1,
                  tested_this_version = 1, accuracy = Some (Finite 100), untested_count = 1\<rparr>)"
    by (simp add: print_statistics_cases untested_titles_def keys_empty doc_eval)
  show ?thesis
    using h untested_count_by_titles [OF h] by blast
qed

theorem final_save_and_report_witness:
  "torrent_titles fresh_tester \<noteq> []
   \<and> versions (results fresh_tester) = DAList.empty
   \<and> fst (interactive_testing plain_env fresh_tester False [Line ''Y'', Interrupt]) = Interrupted
   \<and> (\<exists>T' tr s.
         interactive_testing plain_env fresh_tester False [Line ''Y'', Interrupt]
           = (Interrupted, T', tr @ [Saved (results T'), Report (Some s)])
         \<and> print_statistics T' = Inr (Some s))"
proof -
  have run: "fst (interactive_testing plain_env fresh_tester False [Line ''Y'', Interrupt])
               = Interrupted"
    by (simp add: run_eval doc_eval)
  have start: "torrent_titles fresh_tester \<noteq> []"
    "\<forall>v s. DAList.lookup (versions (results fresh_tester)) v = Some s \<longrightarrow> counts_ok s"
    by (simp_all add: fresh_tester_def create_new_results_def)
  obtain ex T' tr where fin:
    "case print_statistics T' of
       Inr r \<Rightarrow> interactive_testing plain_env fresh_tester False [Line ''Y'', Interrupt]
                 = (ex, T', tr @ [Saved (results T'), Report r])
     | Inl e \<Rightarrow> interactive_testing plain_env fresh_tester False [Line ''Y'', Interrupt]
                 = (Raised e, T', tr @ [Saved (results T')])"
    and "\<exists>s. print_statistics T' = Inr (Some s)"
    using final_save_and_report
      [where E = plain_env and T = fresh_tester and retest_mode = False
         and ins = "[Line ''Y'', Interrupt]"]
      start
    by blast
  then obtain s where s: "print_statistics T' = Inr (Some s)"
    by blast
  have "interactive_testing plain_env fresh_tester False [Line ''Y'', Interrupt]
                   = (ex, T', tr @ [Saved (results T'), Report (Some s)])"
    using fin s by simp
  moreover have "versions (results fresh_tester) = DAList.empty"
    by (simp add: fresh_tester_def create_new_results_def)
  ultimately show ?thesis
    using run s start(1) by auto
qed

text \<open>
  C8 as stated fails on two sessions that end at once.  On an empty dataset the session
  saves and \<open>print_statistics\<close> returns without printing.  On a loaded document with
  \<open>tested_count = 1\<close> and \<open>correct_count = 10^400\<close> the operator quits, the session
  saves, and the division in \<open>print_statistics\<close> raises: there is no report.
\<close>

theorem final_report_missing_counterexample:
  "interactive_testing plain_env
     \<lparr>torrent_titles = [], library_version = ''dev'', results = create_new_results\<rparr>
     False []
   = (Done,
      \<lparr>torrent_titles = [], library_version = ''dev'', results = create_new_results\<rparr>,
      [Saved create_new_results, Report None])
   \<and> interactive_testing plain_env
       \<lparr>torrent_titles = [''Movie.2020.720p''], library_version = ''dev'',
        results = \<lparr>versions = DAList.update ''dev''
                     \<lparr>tested_count = 1, correct_count = 10 ^ 400, timestamp = ''t1''\<rparr>
                     DAList.empty,
                   titles = DAList.empty\<rparr>\<rparr>
       False [Line ''q'']
     = (Raised OverflowError,
        \<lparr>torrent_titles = [''Movie.2020.720p''], library_version = ''dev'',
         results = \<lparr>versions = DAList.update ''dev''
                      \<lparr>tested_count = 1, correct_count = 10 ^ 400, timestamp = ''t1''\<rparr>
                      DAList.empty,
                    titles = DAList.empty\<rparr>\<rparr>,
        [Saved \<lparr>versions = DAList.update ''dev''
                   \<lparr>tested_count = 1, correct_count = 10 ^ 400, timestamp = ''t1''\<rparr>
                   DAList.empty,
                 titles = DAList.empty\<rparr>])"
proof -
  have big: "overflow_bound \<le> 10 ^ 400"
  proof -
    have "(2::real) ^ 1024 \<le> 2 ^ (3 * 342)"
      by (rule power_increasing) simp_all
    also have "\<dots> = (2 ^ 3) ^ 342"
      by (rule power_mult)
    also have "\<dots> \<le> (10::real) ^ 342"
      by (rule power_mono) simp_all
    also have "\<dots> \<le> 10 ^ 400"
      by (rule power_increasing) simp_all
    finally have "(2::real) ^ 1024 \<le> 10 ^ 400" .
    moreover have "(0::real) \<le> 2 ^ 970"
      by (rule zero_le_power) simp
    ultimately show ?thesis
      unfolding overflow_bound_def by linarith
  qed
  show ?thesis
    using big
    by (simp add: run_eval has_verdict_def has_key_def tested_of_def correct_of_def
          create_new_results_def DAList.lookup_update)
qed

theorem skipped_rounds_count_witness:
  "testing_loop plain_env False [] 0 fresh_tester []
     (replicate 4 (Line ''s'') @ Line ''y'' # [])
   = (Raised EOFError,
      record_result fresh_tester ''Show.S01E02.1080p'' () True []
        ''2025-01-01T00:00:00'' ''2025-01-01T00:00:01'',
      [Saved (results (record_result fresh_tester ''Show.S01E02.1080p'' () True []
                 ''2025-01-01T00:00:00'' ''2025-01-01T00:00:01'')),
       Report (Some \<lparr>shown_version = ''dev'', total_titles = 2, total_tested_titles = 1,
                      tested_this_version = 1, accuracy = Some (Finite 100), untested_count = 1\<rparr>)])"
proof -
  have h1: "\<forall>j<4. select_title plain_env False [] (0 + j) fresh_tester \<noteq> None"
    by (simp add: plain_select)
  have h2: "select_title plain_env False [] (0 + 4) fresh_tester = Some ''Show.S01E02.1080p''"
    by (simp add: plain_select)
  have h3: "record_result fresh_tester ''Show.S01E02.1080p'' () True []
              ''2025-01-01T00:00:00'' ''2025-01-01T00:00:01''
            = record_result fresh_tester ''Show.S01E02.1080p''
                (parse_title plain_env ''Show.S01E02.1080p'') True []
                (now_version plain_env (0 + 4)) (now_verdict plain_env (0 + 4))"
    by (simp add: plain_env_def)
  have h4: "print_statistics (record_result fresh_tester ''Show.S01E02.1080p'' () True []
              ''2025-01-01T00:00:00'' ''2025-01-01T00:00:01'')
            = Inr (Some \<lparr>shown_version = ''dev'', total_titles = 2, total_tested_titles = 1,
                      tested_this_version = 1, accuracy = Some (Finite 100), untested_count = 1\<rparr>)"
    by (simp add: print_statistics_cases untested_titles_def keys_empty doc_eval)
  have rest: "testing_loop plain_env False [] 5 T tr [] = (Raised EOFError, T, tr)"
    if "select_title plain_env False [] 5 T \<noteq> None" for T :: "unit tester" and tr
    using that by (auto simp: testing_loop.simps [of plain_env False "[]" 5 T tr "[]"])
  have sel5: "select_title plain_env False [] 5
                (record_result fresh_tester ''Show.S01E02.1080p'' () True []
                   ''2025-01-01T00:00:00'' ''2025-01-01T00:00:01'') \<noteq> None"
    by (simp add: select_title_def get_random_untested_title_def untested_titles_def
          choice_def plain_env_def Let_def doc_eval)
  show ?thesis
    using skipped_rounds_count [OF h1 h2 h3 h4, of "[]" "[]"] rest [OF sel5]
    by simp
qed

end
